theory Spec2Isabelle
  imports Complex_Main "HOL-Library.Multiset"
begin

section \<open>Data model\<close>

text \<open>
  The engine of \<^verbatim>\<open>app/utils/adaptive_algorithm.py\<close> works on plain dictionaries.
  A dictionary with a fixed set of keys that is only read through \<^verbatim>\<open>.get(key, default)\<close>
  is a record of optional fields: \<open>None\<close> is the absent key. Python floats are taken as
  real numbers, so that \<^verbatim>\<open>math.exp\<close> is \<^term>\<open>exp\<close>, and every operation of the
  source that can raise on reals is a branch returning the exception as a value:
  a float division whose divisor is zero raises \<^verbatim>\<open>ZeroDivisionError\<close>, \<^verbatim>\<open>math.sqrt\<close>
  of a negative number raises \<^verbatim>\<open>ValueError\<close>, and a name that was never imported raises
  \<^verbatim>\<open>NameError\<close>.
\<close>

datatype py_error = ZeroDivisionError | ValueError | NameError

record response =
  is_correct :: "bool option"
  user_ability :: "real option"

record question =
  qid :: "string option"
  discrimination :: "real option"
  difficulty :: "real option"
  guessing :: "real option"
  upper_asymptote :: "real option"
  difficulty_score :: "real option"

text \<open>\<^verbatim>\<open>d.get(key, default)\<close>\<close>

definition dict_get :: "'a option \<Rightarrow> 'a \<Rightarrow> 'a" where
  "dict_get v dflt = (case v of None \<Rightarrow> dflt | Some x \<Rightarrow> x)"

text \<open>
  \<^verbatim>\<open>response.get('is_correct', 0)\<close> used as a number: \<^verbatim>\<open>True\<close> is 1 and \<^verbatim>\<open>False\<close> is 0.
\<close>

definition response_value :: "response \<Rightarrow> real" where
  "response_value r = (case is_correct r of None \<Rightarrow> 0 | Some b \<Rightarrow> of_bool b)"

text \<open>\<^verbatim>\<open>r.get('is_correct', False)\<close> used as a condition.\<close>

definition response_correct :: "response \<Rightarrow> bool" where
  "response_correct r = dict_get (is_correct r) False"

record termination_criteria =
  max_questions :: int
  min_questions :: int
  standard_error_threshold :: real
  confidence_threshold :: real

record adaptive_algorithm =
  ability_estimation_method :: string
  question_selection_strategy :: string
  criteria :: termination_criteria

text \<open>\<^verbatim>\<open>AdaptiveAlgorithm.__init__\<close>\<close>

definition init :: adaptive_algorithm where
  "init = \<lparr> ability_estimation_method = ''IRT'',
            question_selection_strategy = ''maximum_information'',
            criteria = \<lparr> max_questions = 50, min_questions = 10,
                         standard_error_threshold = 3 / 10,
                         confidence_threshold = 95 / 100 \<rparr> \<rparr>"

section \<open>Ability estimation\<close>

definition max_iterations :: nat where
  "max_iterations = 50"

definition tolerance :: real where
  "tolerance = 1 / 1000"

text \<open>
  The body of the inner loop of \<^verbatim>\<open>estimate_ability\<close> for one response and its question:
  the pair \<^verbatim>\<open>(first_deriv, second_deriv)\<close>. The only operation that can raise is the
  division by \<^verbatim>\<open>pq\<close>; \<^verbatim>\<open>1 + math.exp(-z)\<close> is positive.
\<close>

definition item_derivatives :: "real \<Rightarrow> response \<Rightarrow> question \<Rightarrow> py_error + real \<times> real" where
  "item_derivatives theta r q =
     (let a = dict_get (discrimination q) (1 / 2);
          b = dict_get (difficulty q) (1 / 2);
          c = dict_get (guessing q) (1 / 4);
          d = dict_get (upper_asymptote q) 1;
          z = a * (theta - b);
          p = c + (d - c) / (1 + exp (- z));
          pq = p * (1 - p)
      in if pq = 0 then Inl ZeroDivisionError
         else Inr (a * (response_value r - p) * (d - c) / pq,
                   - a * a * (d - c) * (d - c) / (pq * pq)))"

text \<open>
  The inner loop \<^verbatim>\<open>for i, response in enumerate(responses)\<close>: the index \<open>i\<close> runs with the
  responses, a response without a question at its position is skipped
  (\<^verbatim>\<open>if i >= len(questions): continue\<close>), and the two sums are accumulated.
\<close>

fun derivatives_loop ::
  "real \<Rightarrow> question list \<Rightarrow> nat \<Rightarrow> response list \<Rightarrow> real \<times> real \<Rightarrow> py_error + real \<times> real" where
  "derivatives_loop theta qs i [] acc = Inr acc"
| "derivatives_loop theta qs i (r # rs) acc =
     (if i \<ge> length qs then derivatives_loop theta qs (Suc i) rs acc
      else (case item_derivatives theta r (qs ! i) of
              Inl e \<Rightarrow> Inl e
            | Inr (fd, sd) \<Rightarrow>
                derivatives_loop theta qs (Suc i) rs (fst acc + fd, snd acc + sd)))"

text \<open>
  The outer loop \<^verbatim>\<open>for iteration in range(max_iterations)\<close>, by the number of iterations
  that remain. Both \<^verbatim>\<open>break\<close>s leave \<^verbatim>\<open>theta\<close> as it was before the update.
\<close>

fun newton_loop :: "nat \<Rightarrow> response list \<Rightarrow> question list \<Rightarrow> real \<Rightarrow> py_error + real" where
  "newton_loop 0 rs qs theta = Inr theta"
| "newton_loop (Suc n) rs qs theta =
     (case derivatives_loop theta qs 0 rs (0, 0) of
        Inl e \<Rightarrow> Inl e
      | Inr (first_derivative, second_derivative) \<Rightarrow>
          if \<bar>second_derivative\<bar> < tolerance then Inr theta
          else (let new_theta = theta - first_derivative / second_derivative
                in if \<bar>new_theta - theta\<bar> < tolerance then Inr theta
                   else newton_loop n rs qs new_theta))"

definition estimate_ability :: "response list \<Rightarrow> question list \<Rightarrow> py_error + real" where
  "estimate_ability rs qs =
     (if rs = [] then Inr 0 else newton_loop max_iterations rs qs 0)"

section \<open>Fisher information and item selection\<close>

definition calculate_information :: "real \<Rightarrow> question \<Rightarrow> py_error + real" where
  "calculate_information theta q =
     (let a = dict_get (discrimination q) (1 / 2);
          b = dict_get (difficulty q) (1 / 2);
          c = dict_get (guessing q) (1 / 4);
          d = dict_get (upper_asymptote q) 1;
          z = a * (theta - b);
          p = c + (d - c) / (1 + exp (- z))
      in if p * (1 - p) = 0 then Inl ZeroDivisionError
         else Inr ((a * a * (d - c) * (d - c)) / (p * (1 - p))))"

text \<open>
  The loop of the \<^verbatim>\<open>maximum_information\<close> branch, started with
  \<^verbatim>\<open>best_question = None\<close> and \<^verbatim>\<open>max_information = 0\<close>.
\<close>

fun max_information_loop ::
  "real \<Rightarrow> question list \<Rightarrow> question option \<Rightarrow> real \<Rightarrow> py_error + question option" where
  "max_information_loop theta [] best_question max_information = Inr best_question"
| "max_information_loop theta (q # qs) best_question max_information =
     (case calculate_information theta q of
        Inl e \<Rightarrow> Inl e
      | Inr information \<Rightarrow>
          if information > max_information
          then max_information_loop theta qs (Some q) information
          else max_information_loop theta qs best_question max_information)"

text \<open>
  The loop of the \<^verbatim>\<open>closest_difficulty\<close> branch. \<^verbatim>\<open>min_distance\<close> starts at
  \<^verbatim>\<open>float('inf')\<close>, which is \<open>None\<close> here: every distance is below it.
\<close>

fun closest_difficulty_loop ::
  "real \<Rightarrow> question list \<Rightarrow> question option \<Rightarrow> real option \<Rightarrow> question option" where
  "closest_difficulty_loop theta [] best_question min_distance = best_question"
| "closest_difficulty_loop theta (q # qs) best_question min_distance =
     (let distance = \<bar>dict_get (difficulty_score q) 50 - theta\<bar>
      in if (case min_distance of None \<Rightarrow> True | Some m \<Rightarrow> distance < m)
         then closest_difficulty_loop theta qs (Some q) (Some distance)
         else closest_difficulty_loop theta qs best_question min_distance)"

text \<open>
  \<^verbatim>\<open>q.get('id') not in answered_questions\<close>: a question without an id has the id
  \<^verbatim>\<open>None\<close>, which is no member of a list of strings.
\<close>

definition unanswered :: "question list \<Rightarrow> string list \<Rightarrow> question list" where
  "unanswered available_questions answered_questions =
     filter (\<lambda>q. qid q \<notin> set (map Some answered_questions)) available_questions"

text \<open>
  The module imports \<^verbatim>\<open>math\<close>, \<^verbatim>\<open>typing\<close> and \<^verbatim>\<open>numpy\<close> only, so the name
  \<^verbatim>\<open>random\<close> of the fallback branch is unbound when the branch runs.
\<close>

definition select_next_question ::
  "adaptive_algorithm \<Rightarrow> real \<Rightarrow> question list \<Rightarrow> string list \<Rightarrow> py_error + question option" where
  "select_next_question self current_ability available_questions answered_questions =
     (if available_questions = [] then Inr None
      else if unanswered available_questions answered_questions = [] then Inr None
      else if question_selection_strategy self = ''maximum_information''
        then max_information_loop current_ability
               (unanswered available_questions answered_questions) None 0
      else if question_selection_strategy self = ''closest_difficulty''
        then Inr (closest_difficulty_loop current_ability
               (unanswered available_questions answered_questions) None None)
      else Inl NameError)"

section \<open>Standard error and termination\<close>

text \<open>The loop of \<^verbatim>\<open>calculate_standard_error\<close> that sums the information.\<close>

fun information_loop ::
  "real \<Rightarrow> question list \<Rightarrow> nat \<Rightarrow> response list \<Rightarrow> real \<Rightarrow> py_error + real" where
  "information_loop theta qs i [] information_sum = Inr information_sum"
| "information_loop theta qs i (r # rs) information_sum =
     (if i < length qs
      then (case calculate_information theta (qs ! i) of
              Inl e \<Rightarrow> Inl e
            | Inr information \<Rightarrow>
                information_loop theta qs (Suc i) rs (information_sum + information))
      else information_loop theta qs (Suc i) rs information_sum)"

definition calculate_standard_error :: "response list \<Rightarrow> question list \<Rightarrow> py_error + real" where
  "calculate_standard_error rs qs =
     (if rs = [] then Inr 1
      else (case estimate_ability rs qs of
              Inl e \<Rightarrow> Inl e
            | Inr theta \<Rightarrow>
                (case information_loop theta qs 0 rs 0 of
                   Inl e \<Rightarrow> Inl e
                 | Inr information_sum \<Rightarrow>
                     if information_sum = 0 then Inr 1
                     else if information_sum < 0 then Inl ValueError
                     else Inr (1 / sqrt information_sum))))"

record termination_decision =
  should_terminate_flag :: bool
  reasons :: "string list"
  num_questions :: nat
  standard_error :: real
  ability_estimate :: real

text \<open>
  \<^verbatim>\<open>max_questions or self.termination_criteria['max_questions']\<close>: the argument when it
  is given and not zero, the configured value otherwise.
\<close>

definition effective_max_questions :: "adaptive_algorithm \<Rightarrow> int option \<Rightarrow> int" where
  "effective_max_questions self mq =
     (case mq of None \<Rightarrow> max_questions (criteria self)
      | Some m \<Rightarrow> if m = 0 then max_questions (criteria self) else m)"

definition should_terminate ::
  "adaptive_algorithm \<Rightarrow> response list \<Rightarrow> question list \<Rightarrow> int option
     \<Rightarrow> py_error + termination_decision" where
  "should_terminate self rs qs mq =
     (let max_q = effective_max_questions self mq;
          min_q = min_questions (criteria self);
          se_threshold = standard_error_threshold (criteria self);
          num_responses = length rs
      in case calculate_standard_error rs qs of
           Inl e \<Rightarrow> Inl e
         | Inr se \<Rightarrow>
             (let termination_reasons =
                    (if int num_responses \<ge> max_q then [''max_questions_reached''] else [])
                    @ (if int num_responses \<ge> min_q \<and> se \<le> se_threshold
                       then [''sufficient_precision''] else [])
              in case estimate_ability rs qs of
                   Inl e \<Rightarrow> Inl e
                 | Inr theta \<Rightarrow>
                     Inr \<lparr> should_terminate_flag = (length termination_reasons > 0),
                           reasons = termination_reasons,
                           num_questions = num_responses,
                           standard_error = se,
                           ability_estimate = theta \<rparr>))"

section \<open>Online update of an item's psychometric fields\<close>

text \<open>
  \<^verbatim>\<open>Psychometrics\<close> of \<^verbatim>\<open>app/models/question.py\<close>; \<^verbatim>\<open>update_psychometrics\<close> mutates
  it in place, so the model returns the updated record.
\<close>

record psychometrics =
  p_discrimination :: real
  p_difficulty :: real
  p_guessing :: real
  p_upper_asymptote :: real

text \<open>\<^verbatim>\<open>sum(1 for r in xs if r.get('is_correct', False))\<close>\<close>

definition count_correct :: "response list \<Rightarrow> nat" where
  "count_correct xs = length (filter response_correct xs)"

text \<open>
  \<^verbatim>\<open>sorted(responses, key=lambda x: x.get('user_ability', 0), reverse=True)\<close>: Python's
  sort is stable also with \<^verbatim>\<open>reverse=True\<close> (equal keys keep their order), which is the
  stable ascending sort by the negated key.
\<close>

definition sorted_responses :: "response list \<Rightarrow> response list" where
  "sorted_responses rs = sort_key (\<lambda>x. - dict_get (user_ability x) 0) rs"

text \<open>
  \<^verbatim>\<open>xs[-k:]\<close>: the last \<open>k\<close> elements, and the whole list when \<open>k = 0\<close>
  (\<^verbatim>\<open>xs[-0:]\<close> is \<^verbatim>\<open>xs[0:]\<close>).
\<close>

definition slice_last :: "nat \<Rightarrow> 'a list \<Rightarrow> 'a list" where
  "slice_last k xs = (if k = 0 then xs else drop (length xs - k) xs)"

definition update_psychometrics :: "psychometrics \<Rightarrow> response list \<Rightarrow> psychometrics" where
  "update_psychometrics self rs =
     (if rs = [] then self
      else (let correct_responses = count_correct rs;
                total_responses = length rs;
                self1 = self\<lparr> p_difficulty := real correct_responses / real total_responses \<rparr>;
                srt = sorted_responses rs;
                top_third = (length srt + 2) div 3;
                bottom_third = length srt div 3;
                top_correct = count_correct (take top_third srt);
                bottom_correct = count_correct (slice_last bottom_third srt)
            in if top_third > 0 \<and> bottom_third > 0
               then self1\<lparr> p_discrimination :=
                         (real top_correct / real top_third)
                         - (real bottom_correct / real bottom_third) \<rparr>
               else self1))"

section \<open>The specification's formulas\<close>

text \<open>
  The item parameters as both \<^verbatim>\<open>estimate_ability\<close> and \<^verbatim>\<open>calculate_information\<close> read
  them, with the defaults of the source for a missing key.
\<close>

definition a_of :: "question \<Rightarrow> real" where
  "a_of q = dict_get (discrimination q) (1 / 2)"

definition b_of :: "question \<Rightarrow> real" where
  "b_of q = dict_get (difficulty q) (1 / 2)"

definition c_of :: "question \<Rightarrow> real" where
  "c_of q = dict_get (guessing q) (1 / 4)"

definition d_of :: "question \<Rightarrow> real" where
  "d_of q = dict_get (upper_asymptote q) 1"

text \<open>
  The formulas below are written from the specification, not from the code; the theorems
  relate the loops of the code to them. \<open>spec_P\<close> is the response probability
  \<open>P\<^sub>i(\<theta>) = c\<^sub>i + (d\<^sub>i - c\<^sub>i) / (1 + exp (- a\<^sub>i (\<theta> - b\<^sub>i)))\<close>, \<open>spec_pq\<close> is
  \<open>P\<^sub>i (1 - P\<^sub>i)\<close>, \<open>spec_L1\<close> and \<open>spec_L2\<close> are the sums \<open>L'\<close> and \<open>L''\<close> over the
  administered items (the responses paired with the items by position), and
  \<open>spec_information\<close> is the Fisher information of one item.
\<close>

definition spec_P :: "question \<Rightarrow> real \<Rightarrow> real" where
  "spec_P q theta = c_of q + (d_of q - c_of q) / (1 + exp (- (a_of q * (theta - b_of q))))"

definition spec_pq :: "question \<Rightarrow> real \<Rightarrow> real" where
  "spec_pq q theta = spec_P q theta * (1 - spec_P q theta)"

definition spec_L1 :: "response list \<Rightarrow> question list \<Rightarrow> real \<Rightarrow> real" where
  "spec_L1 rs qs theta =
     (\<Sum>(r, q) \<leftarrow> zip rs qs.
        a_of q * (response_value r - spec_P q theta) * (d_of q - c_of q) / spec_pq q theta)"

definition spec_L2 :: "response list \<Rightarrow> question list \<Rightarrow> real \<Rightarrow> real" where
  "spec_L2 rs qs theta =
     (\<Sum>(r, q) \<leftarrow> zip rs qs. - (a_of q)\<^sup>2 * (d_of q - c_of q)\<^sup>2 / (spec_pq q theta)\<^sup>2)"

text \<open>No administered item has \<open>pq = 0\<close> at \<open>theta\<close>: every division is defined.\<close>

definition pq_defined :: "response list \<Rightarrow> question list \<Rightarrow> real \<Rightarrow> bool" where
  "pq_defined rs qs theta = list_all (\<lambda>(r, q). spec_pq q theta \<noteq> 0) (zip rs qs)"

text \<open>The Newton-Raphson update \<open>\<theta> - L'(\<theta>) / L''(\<theta>)\<close> and its iterates from a start.\<close>

definition spec_update :: "response list \<Rightarrow> question list \<Rightarrow> real \<Rightarrow> real" where
  "spec_update rs qs theta = theta - spec_L1 rs qs theta / spec_L2 rs qs theta"


text \<open>
  At \<open>theta\<close> the iteration goes on when neither stopping test holds, and halts when one
  of them does: \<open>|L''| < 0.001\<close> or \<open>|\<theta>\<^sub>n\<^sub>e\<^sub>w - \<theta>| < 0.001\<close>.
\<close>

definition spec_continues :: "response list \<Rightarrow> question list \<Rightarrow> real \<Rightarrow> bool" where
  "spec_continues rs qs theta \<longleftrightarrow>
     pq_defined rs qs theta \<and> \<not> \<bar>spec_L2 rs qs theta\<bar> < tolerance
     \<and> \<not> \<bar>spec_update rs qs theta - theta\<bar> < tolerance"



definition spec_information :: "question \<Rightarrow> real \<Rightarrow> real" where
  "spec_information q theta =
     (a_of q)\<^sup>2 * (d_of q - c_of q)\<^sup>2 / (spec_P q theta * (1 - spec_P q theta))"


section \<open>Example inputs\<close>

text \<open>The standard logistic item \<open>a = 1, b = 0, c = 0, d = 1\<close>, and an item with \<open>a = 0\<close>.\<close>

definition q_std :: question where
  "q_std = \<lparr> qid = Some ''q1'', discrimination = Some 1, difficulty = Some 0,
             guessing = Some 0, upper_asymptote = Some 1, difficulty_score = None \<rparr>"

definition q_flat :: question where
  "q_flat = \<lparr> qid = Some ''q2'', discrimination = Some 0, difficulty = Some 0,
              guessing = Some 0, upper_asymptote = Some 1, difficulty_score = None \<rparr>"

definition r_true :: response where
  "r_true = \<lparr> is_correct = Some True, user_ability = None \<rparr>"

definition r_false :: response where
  "r_false = \<lparr> is_correct = Some False, user_ability = None \<rparr>"

text \<open>An item with \<open>c = d = 0\<close>, within the invariant \<open>0 \<le> c \<le> d \<le> 1\<close>, \<open>a \<ge> 0\<close>.\<close>

definition q_degenerate :: question where
  "q_degenerate = \<lparr> qid = Some ''q4'', discrimination = Some 1, difficulty = Some 0,
                    guessing = Some 0, upper_asymptote = Some 0, difficulty_score = None \<rparr>"




text \<open>The sort key of \<^verbatim>\<open>update_psychometrics\<close>, and inputs for it.\<close>

definition ability_key :: "response \<Rightarrow> real" where
  "ability_key r = dict_get (user_ability r) 0"

definition psy0 :: psychometrics where
  "psy0 = \<lparr> p_discrimination = 1 / 2, p_difficulty = 1 / 2, p_guessing = 1 / 4,
            p_upper_asymptote = 1 \<rparr>"

definition resp :: "bool \<Rightarrow> real \<Rightarrow> response" where
  "resp c ab = \<lparr> is_correct = Some c, user_ability = Some ab \<rparr>"

text \<open>
  A weakly discriminating item whose curve stays below \<open>1 / 2\<close>, a response turned into a
  correct one, and the invariant of the data model on the parameters of an item.
\<close>

definition q_low :: question where
  "q_low = \<lparr> qid = Some ''q5'', discrimination = Some (73 / 10000), difficulty = Some 0,
             guessing = Some 0, upper_asymptote = Some (1 / 2), difficulty_score = None \<rparr>"

definition mark_correct :: "response \<Rightarrow> response" where
  "mark_correct r = r\<lparr> is_correct := Some True \<rparr>"

definition valid_item :: "question \<Rightarrow> bool" where
  "valid_item q \<longleftrightarrow> 0 \<le> a_of q \<and> 0 \<le> c_of q \<and> c_of q \<le> d_of q \<and> d_of q \<le> 1"

text \<open>
  Position \<open>i\<close> holds the first greatest information of the list, and it is above \<open>mx\<close>.
\<close>

definition first_maximum :: "real \<Rightarrow> question list \<Rightarrow> real \<Rightarrow> nat \<Rightarrow> bool" where
  "first_maximum theta qs mx i \<longleftrightarrow>
     i < length qs \<and> mx < spec_information (qs ! i) theta
     \<and> (\<forall>j<length qs. spec_information (qs ! j) theta \<le> spec_information (qs ! i) theta)
     \<and> (\<forall>j<i. spec_information (qs ! j) theta < spec_information (qs ! i) theta)"

text \<open>
  An item whose asymptotes stay away from \<open>0\<close> and \<open>1\<close>, and the range of \<open>\<theta>\<close> in which the
  double operations before the division neither overflow nor raise: \<^verbatim>\<open>math.exp\<close> raises
  \<^verbatim>\<open>OverflowError\<close> above about \<open>709.78\<close>, which the real \<^term>\<open>exp\<close> does not.
\<close>

definition q_mid :: question where
  "q_mid = \<lparr> qid = Some ''q6'', discrimination = Some 1, difficulty = Some 0,
             guessing = Some (1 / 4), upper_asymptote = Some (3 / 4), difficulty_score = None \<rparr>"

definition exp_computed :: "question \<Rightarrow> real \<Rightarrow> bool" where
  "exp_computed q theta \<longleftrightarrow>
     \<bar>theta - b_of q\<bar> \<le> 10 ^ 300 \<and> \<bar>a_of q * (theta - b_of q)\<bar> \<le> 700"

section \<open>The loops of the estimator are the specification's sums\<close>

lemma item_derivatives_spec:
  "item_derivatives theta r q =
     (if spec_pq q theta = 0 then Inl ZeroDivisionError
      else Inr (a_of q * (response_value r - spec_P q theta) * (d_of q - c_of q) / spec_pq q theta,
                - (a_of q)\<^sup>2 * (d_of q - c_of q)\<^sup>2 / (spec_pq q theta)\<^sup>2))"
  by (simp add: item_derivatives_def Let_def spec_pq_def spec_P_def a_of_def b_of_def c_of_def
      d_of_def power2_eq_square)

lemma derivatives_loop_sums:
  "derivatives_loop theta qs i rs acc =
     (if pq_defined rs (drop i qs) theta
      then Inr (fst acc + spec_L1 rs (drop i qs) theta, snd acc + spec_L2 rs (drop i qs) theta)
      else Inl ZeroDivisionError)"
proof (induction rs arbitrary: i acc)
  case Nil
  show ?case by (simp add: pq_defined_def spec_L1_def spec_L2_def)
next
  case (Cons r rs)
  show ?case
  proof (cases "i \<ge> length qs")
    case True
    then show ?thesis
      using Cons.IH [of "Suc i" acc]
      by (simp add: pq_defined_def spec_L1_def spec_L2_def)
  next
    case False
    then have d: "drop i qs = qs ! i # drop (Suc i) qs"
      by (simp add: Cons_nth_drop_Suc)
    show ?thesis
      using False
      by (simp add: d Cons.IH item_derivatives_spec pq_defined_def spec_L1_def spec_L2_def
          del: drop_Suc_Cons)
  qed
qed

lemma derivatives_loop_start:
  "derivatives_loop theta qs 0 rs (0, 0) =
     (if pq_defined rs qs theta then Inr (spec_L1 rs qs theta, spec_L2 rs qs theta)
      else Inl ZeroDivisionError)"
  by (simp add: derivatives_loop_sums)


text \<open>One pass of the outer loop.\<close>

lemma newton_loop_step:
  "newton_loop (Suc n) rs qs theta =
     (if \<not> pq_defined rs qs theta then Inl ZeroDivisionError
      else if spec_continues rs qs theta then newton_loop n rs qs (spec_update rs qs theta)
      else Inr theta)"
  by (simp add: derivatives_loop_start spec_continues_def spec_update_def Let_def)






text \<open>A balanced pair of answers on the standard item: the first update is zero.\<close>

lemma estimate_ability_balanced:
  "estimate_ability [r_true, r_false] [q_std, q_std] = Inr 0"
  by (simp add: estimate_ability_def max_iterations_def numeral_eq_Suc item_derivatives_def
      dict_get_def response_value_def tolerance_def q_std_def r_true_def r_false_def)

section \<open>Bounds on the response probability\<close>

lemma logistic_bounds: "0 < 1 / (1 + exp (x::real)) \<and> 1 / (1 + exp x) < 1"
proof -
  have "0 < 1 + exp x" by (simp add: add_pos_pos)
  then show ?thesis by simp
qed

lemma spec_P_between:
  assumes "c_of q < d_of q"
  shows "c_of q < spec_P q theta \<and> spec_P q theta < d_of q"
proof -
  let ?t = "1 / (1 + exp (- (a_of q * (theta - b_of q))))"
  have t: "0 < ?t" "?t < 1" using logistic_bounds by blast+
  have p: "spec_P q theta = c_of q + (d_of q - c_of q) * ?t"
    by (simp add: spec_P_def)
  have "0 < (d_of q - c_of q) * ?t"
    using assms t(1) by (intro mult_pos_pos) simp_all
  moreover have "(d_of q - c_of q) * ?t < (d_of q - c_of q) * 1"
    using assms t(2) by (intro mult_strict_left_mono) simp_all
  ultimately show ?thesis unfolding p by simp
qed

lemma spec_P_eq: "c_of q = d_of q \<Longrightarrow> spec_P q theta = c_of q"
  by (simp add: spec_P_def)


lemma spec_pq_nonneg:
  assumes "0 \<le> c_of q" "c_of q \<le> d_of q" "d_of q \<le> 1"
  shows "0 \<le> spec_pq q theta"
proof (cases "c_of q = d_of q")
  case True
  then show ?thesis using assms by (simp add: spec_pq_def spec_P_eq)
next
  case False
  then have "c_of q < d_of q" using assms by simp
  then have "0 < spec_P q theta" "spec_P q theta < 1"
    using spec_P_between [of q theta] assms by simp_all
  then show ?thesis by (simp add: spec_pq_def)
qed

section \<open>Two runs on three copies of a weak item\<close>

text \<open>
  With three copies of \<open>q_low\<close> the first update from \<open>\<theta> = 0\<close> is \<open>5625 / 146\<close> when all three
  answers are correct and \<open>3125 / 146\<close> when the first one is incorrect. Beyond \<open>5625 / 146\<close>
  the test \<open>|L''| < 0.001\<close> holds, at \<open>3125 / 146\<close> it does not: the first run stops after one
  update, the second one takes a second update and passes the first.
\<close>

lemma q_low_parameters:
  "a_of q_low = 73 / 10000" "b_of q_low = 0" "c_of q_low = 0" "d_of q_low = 1 / 2"
  by (simp_all add: a_of_def b_of_def c_of_def d_of_def q_low_def dict_get_def)

lemma q_low_P: "spec_P q_low theta = (1 / 2) / (1 + exp (- (73 / 10000 * theta)))"
  by (simp add: spec_P_def q_low_parameters)

lemma q_low_P_range: "0 < spec_P q_low theta" "spec_P q_low theta < 1 / 2"
  using spec_P_between [of q_low theta] by (simp_all add: q_low_parameters)

lemma q_low_pq_pos: "0 < spec_pq q_low theta"
  using q_low_P_range [of theta] by (simp add: spec_pq_def)

lemma q_low_pq_defined: "pq_defined [r1, r2, r3] [q_low, q_low, q_low] theta"
  using q_low_pq_pos [of theta] by (simp add: pq_defined_def)

lemma q_low_L2:
  "spec_L2 [r1, r2, r3] [q_low, q_low, q_low] theta =
     - (3 * (73 / 10000)\<^sup>2 * (1 / 2)\<^sup>2 / (spec_pq q_low theta)\<^sup>2)"
  by (simp add: spec_L2_def q_low_parameters)

lemma q_low_L1:
  "spec_L1 [r1, r2, r3] [q_low, q_low, q_low] theta =
     73 / 10000 * (1 / 2)
       * (response_value r1 + response_value r2 + response_value r3 - 3 * spec_P q_low theta)
       / spec_pq q_low theta"
  by (simp add: spec_L1_def q_low_parameters add_divide_distrib diff_divide_distrib
      algebra_simps)

lemma q_low_update:
  "spec_update [r1, r2, r3] [q_low, q_low, q_low] theta =
     theta + 20000 / 219 * (response_value r1 + response_value r2 + response_value r3
                 - 3 * spec_P q_low theta) * spec_pq q_low theta"
proof -
  have "spec_pq q_low theta \<noteq> 0" using q_low_pq_pos [of theta] by simp
  then show ?thesis
    unfolding spec_update_def q_low_L1 q_low_L2
    by (simp add: field_simps power2_eq_square)
qed


lemma pq_mono:
  fixes x y :: real
  assumes "x \<le> y" "y \<le> 1 / 2"
  shows "x * (1 - x) \<le> y * (1 - y)"
proof -
  have "y * (1 - y) - x * (1 - x) = (y - x) * (1 - x - y)"
    by (simp add: algebra_simps)
  moreover have "0 \<le> (y - x) * (1 - x - y)"
    using assms by (intro mult_nonneg_nonneg) simp_all
  ultimately show ?thesis by simp
qed

lemma q_low_at_0: "spec_P q_low 0 = 1 / 4" "spec_pq q_low 0 = 3 / 16"
  by (simp_all add: spec_pq_def q_low_P)

lemma q_low_P_far:
  assumes "5625 / 146 \<le> theta"
  shows "41 / 146 \<le> spec_P q_low theta"
proof -
  let ?x = "73 / 10000 * theta"
  have x: "9 / 32 \<le> ?x" using assms by simp
  have "41 / 32 \<le> 1 + ?x" using x by simp
  also have "\<dots> \<le> exp ?x" by (rule exp_ge_add_one_self)
  finally have e: "41 / 32 \<le> exp ?x" .
  have "exp (- ?x) = 1 / exp ?x" by (simp add: exp_minus field_simps)
  also have "\<dots> \<le> 1 / (41 / 32)"
    using e by (intro divide_left_mono) simp_all
  finally have "exp (- ?x) \<le> 32 / 41" by simp
  then have "1 + exp (- ?x) \<le> 73 / 41" by simp
  moreover have "0 < 1 + exp (- ?x)" by (simp add: add_pos_pos)
  ultimately have "(1 / 2) / (73 / 41) \<le> (1 / 2) / (1 + exp (- ?x))"
    by (intro divide_left_mono) simp_all
  then show ?thesis by (simp add: q_low_P)
qed

lemma q_low_pq_far:
  assumes "5625 / 146 \<le> theta"
  shows "4305 / 21316 \<le> spec_pq q_low theta"
proof -
  have "(41 / 146) * (1 - 41 / 146) \<le> spec_P q_low theta * (1 - spec_P q_low theta)"
    using q_low_P_far [OF assms] q_low_P_range(2) [of theta]
    by (intro pq_mono) simp_all
  then show ?thesis by (simp add: spec_pq_def)
qed

lemma q_low_L2_far:
  assumes "5625 / 146 \<le> theta"
  shows "\<bar>spec_L2 [r1, r2, r3] [q_low, q_low, q_low] theta\<bar> < tolerance"
proof -
  let ?g = "spec_pq q_low theta"
  have g: "4305 / 21316 \<le> ?g" by (rule q_low_pq_far [OF assms])
  have "(4305 / 21316)\<^sup>2 \<le> ?g\<^sup>2"
    using g by (intro power_mono) simp_all
  then have g2: "(4 :: real) / 100 < ?g\<^sup>2"
    by (simp add: power2_eq_square)
  have "3 * (73 / 10000)\<^sup>2 * (1 / 2)\<^sup>2 / ?g\<^sup>2 < 3 * (73 / 10000)\<^sup>2 * (1 / 2)\<^sup>2 / (4 / 100)"
    using g2 q_low_pq_pos [of theta] by (intro divide_strict_left_mono) simp_all
  also have "\<dots> < 1 / 1000" by (simp add: power2_eq_square)
  finally have "3 * (73 / 10000)\<^sup>2 * (1 / 2)\<^sup>2 / ?g\<^sup>2 < 1 / 1000" .
  moreover have "0 \<le> 3 * (73 / 10000)\<^sup>2 * (1 / 2)\<^sup>2 / ?g\<^sup>2" by simp
  ultimately show ?thesis
    unfolding q_low_L2 tolerance_def by simp
qed

lemma q_low_P_near:
  "1 / 4 \<le> spec_P q_low (3125 / 146)" "spec_P q_low (3125 / 146) \<le> 16 / 59"
proof -
  let ?x = "73 / 10000 * (3125 / 146) :: real"
  have x: "?x = 5 / 32" by simp
  have pos: "0 < 1 + exp (- ?x)" by (simp add: add_pos_pos)
  have "exp (- ?x) \<le> 1" by simp
  then have "1 + exp (- ?x) \<le> 2" by simp
  then have "(1 / 2) / 2 \<le> (1 / 2) / (1 + exp (- ?x))"
    using pos by (intro divide_left_mono) simp_all
  then show "1 / 4 \<le> spec_P q_low (3125 / 146)" by (simp add: q_low_P)
  have "1 + (- ?x) \<le> exp (- ?x)" by (rule exp_ge_add_one_self)
  then have "59 / 32 \<le> 1 + exp (- ?x)" by simp
  then have "(1 / 2) / (1 + exp (- ?x)) \<le> (1 / 2) / (59 / 32)"
    by (intro divide_left_mono) simp_all
  then show "spec_P q_low (3125 / 146) \<le> 16 / 59" by (simp add: q_low_P)
qed

lemma q_low_pq_near:
  "3 / 16 \<le> spec_pq q_low (3125 / 146)" "spec_pq q_low (3125 / 146) \<le> 688 / 3481"
proof -
  have "(1 / 4) * (1 - 1 / 4) \<le> spec_P q_low (3125 / 146) * (1 - spec_P q_low (3125 / 146))"
    using q_low_P_near(1) q_low_P_range(2) [of "3125 / 146"] by (intro pq_mono) simp_all
  then show "3 / 16 \<le> spec_pq q_low (3125 / 146)" by (simp add: spec_pq_def)
  have "spec_P q_low (3125 / 146) * (1 - spec_P q_low (3125 / 146)) \<le> (16 / 59) * (1 - 16 / 59)"
    using q_low_P_near(2) by (intro pq_mono) simp_all
  then show "spec_pq q_low (3125 / 146) \<le> 688 / 3481" by (simp add: spec_pq_def)
qed

lemma q_low_L2_near:
  "\<not> \<bar>spec_L2 [r1, r2, r3] [q_low, q_low, q_low] (3125 / 146)\<bar> < tolerance"
proof -
  let ?g = "spec_pq q_low (3125 / 146)"
  have g0: "0 < ?g" by (rule q_low_pq_pos)
  have "?g\<^sup>2 \<le> (688 / 3481)\<^sup>2"
    using q_low_pq_near(2) g0 by (intro power_mono) simp_all
  then have g2: "?g\<^sup>2 \<le> 391 / 10000"
    by (simp add: power2_eq_square)
  have "1 / 1000 \<le> 3 * (73 / 10000)\<^sup>2 * (1 / 2)\<^sup>2 / (391 / 10000 :: real)"
    by (simp add: power2_eq_square)
  also have "\<dots> \<le> 3 * (73 / 10000)\<^sup>2 * (1 / 2)\<^sup>2 / ?g\<^sup>2"
    using g2 g0 by (intro divide_left_mono) simp_all
  finally show ?thesis
    unfolding q_low_L2 tolerance_def by simp
qed


lemma response_values: "response_value r_true = 1" "response_value r_false = 0"
  by (simp_all add: response_value_def r_true_def r_false_def)

lemma q_low_continues_0:
  "spec_continues [r_true, r_true, r_true] [q_low, q_low, q_low] 0"
  "spec_continues [r_false, r_true, r_true] [q_low, q_low, q_low] 0"
  "spec_update [r_true, r_true, r_true] [q_low, q_low, q_low] 0 = 5625 / 146"
  "spec_update [r_false, r_true, r_true] [q_low, q_low, q_low] 0 = 3125 / 146"
  by (simp_all add: spec_continues_def q_low_pq_defined q_low_update q_low_L2 q_low_at_0 response_values
      tolerance_def power2_eq_square)

lemma q_low_halts_far:
  assumes "5625 / 146 \<le> theta"
  shows "newton_loop (Suc n) [r1, r2, r3] [q_low, q_low, q_low] theta = Inr theta"
  using q_low_L2_far [OF assms, of r1 r2 r3]
  by (simp add: newton_loop_step q_low_pq_defined spec_continues_def del: newton_loop.simps)

lemma q_low_update_near:
  "5625 / 146 < spec_update [r_false, r_true, r_true] [q_low, q_low, q_low] (3125 / 146)"
proof -
  define s where "s = (2 - 3 * spec_P q_low (3125 / 146)) * spec_pq q_low (3125 / 146)"
  have "70 / 59 \<le> 2 - 3 * spec_P q_low (3125 / 146)" using q_low_P_near(2) by simp
  then have "(70 / 59) * (3 / 16) \<le> s"
    unfolding s_def using q_low_pq_near(1) by (intro mult_mono) simp_all
  then have "5625 / 146 < 3125 / 146 + 20000 / 219 * s" by simp
  moreover have "spec_update [r_false, r_true, r_true] [q_low, q_low, q_low] (3125 / 146)
      = 3125 / 146 + 20000 / 219 * s"
    unfolding s_def q_low_update response_values by simp
  ultimately show ?thesis by simp
qed

lemma q_low_continues_near:
  "spec_continues [r_false, r_true, r_true] [q_low, q_low, q_low] (3125 / 146)"
  using q_low_update_near q_low_L2_near [of r_false r_true r_true]
  by (simp add: spec_continues_def q_low_pq_defined tolerance_def)

lemma newton_loop_continue:
  "spec_continues rs qs theta \<Longrightarrow>
   newton_loop (Suc n) rs qs theta = newton_loop n rs qs (spec_update rs qs theta)"
  by (simp add: newton_loop_step spec_continues_def del: newton_loop.simps)

lemma estimate_all_correct:
  "estimate_ability [r_true, r_true, r_true] [q_low, q_low, q_low] = Inr (5625 / 146)"
proof -
  let ?rs = "[r_true, r_true, r_true]" and ?qs = "[q_low, q_low, q_low]"
  have "estimate_ability ?rs ?qs = newton_loop (Suc 49) ?rs ?qs 0"
    by (simp add: estimate_ability_def max_iterations_def)
  also have "\<dots> = newton_loop (Suc 48) ?rs ?qs (5625 / 146)"
    using newton_loop_continue [OF q_low_continues_0(1), of 49]
    by (simp add: q_low_continues_0(3) del: newton_loop.simps)
  also have "\<dots> = Inr (5625 / 146)"
    by (rule q_low_halts_far) simp
  finally show ?thesis .
qed

lemma estimate_one_incorrect:
  "estimate_ability [r_false, r_true, r_true] [q_low, q_low, q_low] =
     Inr (spec_update [r_false, r_true, r_true] [q_low, q_low, q_low] (3125 / 146))"
proof -
  let ?rs = "[r_false, r_true, r_true]" and ?qs = "[q_low, q_low, q_low]"
  have "estimate_ability ?rs ?qs = newton_loop (Suc 49) ?rs ?qs 0"
    by (simp add: estimate_ability_def max_iterations_def)
  also have "\<dots> = newton_loop (Suc 48) ?rs ?qs (3125 / 146)"
    using newton_loop_continue [OF q_low_continues_0(2), of 49]
    by (simp add: q_low_continues_0(4) del: newton_loop.simps)
  also have "\<dots> = newton_loop (Suc 47) ?rs ?qs (spec_update ?rs ?qs (3125 / 146))"
    using newton_loop_continue [OF q_low_continues_near, of 48]
    by (simp del: newton_loop.simps)
  also have "\<dots> = Inr (spec_update ?rs ?qs (3125 / 146))"
    using q_low_update_near by (intro q_low_halts_far) simp
  finally show ?thesis .
qed

section \<open>Ability estimation by Newton-Raphson\<close>



section \<open>Standard error\<close>

lemma calculate_information_spec:
  "calculate_information theta q =
     (if spec_pq q theta = 0 then Inl ZeroDivisionError else Inr (spec_information q theta))"
  by (simp add: calculate_information_def Let_def spec_pq_def spec_P_def a_of_def b_of_def
      c_of_def d_of_def spec_information_def power2_eq_square)


lemma calculate_standard_error_balanced:
  "calculate_standard_error [r_true, r_false] [q_std, q_std] = Inr (1 / sqrt 8)"
  apply (simp add: calculate_standard_error_def estimate_ability_balanced)
  apply (simp add: calculate_information_def dict_get_def q_std_def)
  done






section \<open>Termination\<close>

lemma standard_error_gives_estimate:
  "calculate_standard_error rs qs = Inr se \<Longrightarrow> \<exists>theta. estimate_ability rs qs = Inr theta"
  by (auto simp: calculate_standard_error_def estimate_ability_def split: sum.splits if_splits)

lemma degenerate_run_raises:
  "estimate_ability (replicate 50 r_true) (replicate 50 q_degenerate) = Inl ZeroDivisionError"
proof -
  have "replicate 50 r_true = r_true # replicate 49 r_true"
       "replicate 50 q_degenerate = q_degenerate # replicate 49 q_degenerate"
    by (simp_all add: numeral_eq_Suc)
  moreover have "item_derivatives 0 r_true q_degenerate = Inl ZeroDivisionError"
    by (simp add: item_derivatives_def dict_get_def q_degenerate_def)
  ultimately show ?thesis
    by (simp add: estimate_ability_def max_iterations_def numeral_eq_Suc)
qed

lemma standard_error_degenerate:
  "calculate_standard_error [r_true] [q_degenerate] = Inl ZeroDivisionError"
  by (simp add: calculate_standard_error_def estimate_ability_def max_iterations_def
      numeral_eq_Suc item_derivatives_def dict_get_def q_degenerate_def)

text \<open>
  C2, as the claim states it: for every response history and item pool the decision should
  record \<^verbatim>\<open>max_questions_reached\<close> when the administered count has reached
  \<^verbatim>\<open>max_questions\<close>, whatever the standard error. The standard error is computed before
  the count is looked at: with 50 responses on items with \<open>c = d = 0\<close> and the default
  ceiling of 50 its computation raises, and no decision is returned.
\<close>

theorem should_terminate_ceiling_counterexample:
  "int (length (replicate 50 r_true)) \<ge> effective_max_questions init None
   \<and> should_terminate init (replicate 50 r_true) (replicate 50 q_degenerate) None
       = Inl ZeroDivisionError"
proof -
  have "calculate_standard_error (replicate 50 r_true) (replicate 50 q_degenerate)
      = Inl ZeroDivisionError"
    by (simp add: calculate_standard_error_def degenerate_run_raises)
  then show ?thesis
    by (simp add: should_terminate_def Let_def effective_max_questions_def init_def)
qed

text \<open>
  C2, amended: for every response history and item pool on which the standard error is
  computed, \<^verbatim>\<open>should_terminate\<close> returns a decision, and in it the flag is true exactly
  when a reason was recorded; \<^verbatim>\<open>max_questions_reached\<close> is recorded exactly when the
  number of responses is at least \<^verbatim>\<open>max_q\<close>, whatever the standard error;
  \<^verbatim>\<open>sufficient_precision\<close> is recorded exactly when the number of responses is at least
  \<^verbatim>\<open>min_questions\<close> and the standard error is at most the threshold; both are recorded
  when both hold, and nothing else is. \<^verbatim>\<open>max_q\<close> is the argument \<^verbatim>\<open>max_questions\<close>
  when it is given and not zero, and the configured value (50) otherwise. When the
  computation of the standard error raises, \<^verbatim>\<open>should_terminate\<close> raises the same error.
\<close>

theorem should_terminate_decision:
  "(calculate_standard_error rs qs = Inl e \<longrightarrow> should_terminate self rs qs mq = Inl e)
   \<and> (calculate_standard_error rs qs = Inr se \<longrightarrow>
        (\<exists>dec. should_terminate self rs qs mq = Inr dec
           \<and> standard_error dec = se
           \<and> (should_terminate_flag dec \<longleftrightarrow> reasons dec \<noteq> [])
           \<and> (should_terminate_flag dec \<longleftrightarrow>
                ''max_questions_reached'' \<in> set (reasons dec)
                \<or> ''sufficient_precision'' \<in> set (reasons dec))
           \<and> (''max_questions_reached'' \<in> set (reasons dec)
                \<longleftrightarrow> int (length rs) \<ge> effective_max_questions self mq)
           \<and> (''sufficient_precision'' \<in> set (reasons dec)
                \<longleftrightarrow> int (length rs) \<ge> min_questions (criteria self)
                    \<and> se \<le> standard_error_threshold (criteria self))
           \<and> set (reasons dec) \<subseteq> {''max_questions_reached'', ''sufficient_precision''}
           \<and> estimate_ability rs qs = Inr (ability_estimate dec)
           \<and> num_questions dec = length rs))"
proof -
  have 1: "calculate_standard_error rs qs = Inl e \<longrightarrow> should_terminate self rs qs mq = Inl e"
    by (simp add: should_terminate_def Let_def)
  have 2: "calculate_standard_error rs qs = Inr se \<longrightarrow>
        (\<exists>dec. should_terminate self rs qs mq = Inr dec
           \<and> standard_error dec = se
           \<and> (should_terminate_flag dec \<longleftrightarrow> reasons dec \<noteq> [])
           \<and> (should_terminate_flag dec \<longleftrightarrow>
                ''max_questions_reached'' \<in> set (reasons dec)
                \<or> ''sufficient_precision'' \<in> set (reasons dec))
           \<and> (''max_questions_reached'' \<in> set (reasons dec)
                \<longleftrightarrow> int (length rs) \<ge> effective_max_questions self mq)
           \<and> (''sufficient_precision'' \<in> set (reasons dec)
                \<longleftrightarrow> int (length rs) \<ge> min_questions (criteria self)
                    \<and> se \<le> standard_error_threshold (criteria self))
           \<and> set (reasons dec) \<subseteq> {''max_questions_reached'', ''sufficient_precision''}
           \<and> estimate_ability rs qs = Inr (ability_estimate dec)
           \<and> num_questions dec = length rs)"
  proof
    assume se: "calculate_standard_error rs qs = Inr se"
    then obtain theta where th: "estimate_ability rs qs = Inr theta"
      using standard_error_gives_estimate by blast
    show "\<exists>dec. should_terminate self rs qs mq = Inr dec
           \<and> standard_error dec = se
           \<and> (should_terminate_flag dec \<longleftrightarrow> reasons dec \<noteq> [])
           \<and> (should_terminate_flag dec \<longleftrightarrow>
                ''max_questions_reached'' \<in> set (reasons dec)
                \<or> ''sufficient_precision'' \<in> set (reasons dec))
           \<and> (''max_questions_reached'' \<in> set (reasons dec)
                \<longleftrightarrow> int (length rs) \<ge> effective_max_questions self mq)
           \<and> (''sufficient_precision'' \<in> set (reasons dec)
                \<longleftrightarrow> int (length rs) \<ge> min_questions (criteria self)
                    \<and> se \<le> standard_error_threshold (criteria self))
           \<and> set (reasons dec) \<subseteq> {''max_questions_reached'', ''sufficient_precision''}
           \<and> estimate_ability rs qs = Inr (ability_estimate dec)
           \<and> num_questions dec = length rs"
      by (auto simp: should_terminate_def Let_def se th)
  qed
  show ?thesis using 1 2 by blast
qed

theorem should_terminate_decision_witness:
  "calculate_standard_error [r_true] [q_degenerate] = Inl ZeroDivisionError
   \<and> should_terminate init [r_true] [q_degenerate] None = Inl ZeroDivisionError
   \<and> calculate_standard_error [r_true, r_false] [q_std, q_std] = Inr (1 / sqrt 8)
   \<and> (\<exists>dec. should_terminate init [r_true, r_false] [q_std, q_std] (Some 2) = Inr dec
         \<and> standard_error dec = 1 / sqrt 8
         \<and> should_terminate_flag dec
         \<and> ''max_questions_reached'' \<in> set (reasons dec)
         \<and> ''sufficient_precision'' \<notin> set (reasons dec))"
proof -
  have m: "int (length [r_true, r_false]) \<ge> effective_max_questions init (Some 2)"
    by (simp add: effective_max_questions_def)
  have n: "\<not> int (length [r_true, r_false]) \<ge> min_questions (criteria init)"
    by (simp add: init_def)
  have a: "should_terminate init [r_true] [q_degenerate] None = Inl ZeroDivisionError"
    using should_terminate_decision [of "[r_true]" "[q_degenerate]" ZeroDivisionError init None 0]
      standard_error_degenerate by blast
  have b: "\<exists>dec. should_terminate init [r_true, r_false] [q_std, q_std] (Some 2) = Inr dec
         \<and> standard_error dec = 1 / sqrt 8
         \<and> should_terminate_flag dec
         \<and> ''max_questions_reached'' \<in> set (reasons dec)
         \<and> ''sufficient_precision'' \<notin> set (reasons dec)"
    using should_terminate_decision
        [of "[r_true, r_false]" "[q_std, q_std]" ZeroDivisionError init "Some 2" "1 / sqrt 8"]
      calculate_standard_error_balanced m n
    by blast
  show ?thesis
    using a b standard_error_degenerate calculate_standard_error_balanced by blast
qed

section \<open>Item selection\<close>

text \<open>
  What the \<^verbatim>\<open>maximum_information\<close> branch returns when it returns: the first unanswered
  item of greatest information if some unanswered item has positive information, and none
  otherwise. Any other strategy than the two named ones ends in \<^verbatim>\<open>NameError\<close> as soon as
  an item is unanswered.
\<close>

lemma first_maximum_head:
  assumes "mx < spec_information q theta"
    "\<forall>q'\<in>set qs. spec_information q' theta \<le> spec_information q theta"
  shows "first_maximum theta (q # qs) mx 0"
  using assms by (auto simp: first_maximum_def nth_Cons')

lemma first_maximum_tail:
  assumes "first_maximum theta qs m i" "spec_information q theta \<le> m" "mx \<le> m"
  shows "first_maximum theta (q # qs) mx (Suc i)"
  using assms by (auto simp: first_maximum_def nth_Cons' less_Suc_eq_0_disj)

lemma max_information_loop_result:
  assumes "max_information_loop theta qs best mx = Inr res"
  shows "if \<forall>q\<in>set qs. spec_information q theta \<le> mx then res = best
         else (\<exists>i. first_maximum theta qs mx i \<and> res = Some (qs ! i))"
  using assms
proof (induction qs arbitrary: best mx)
  case Nil
  then show ?case by simp
next
  case (Cons q qs)
  let ?v = "spec_information q theta"
  have ci: "calculate_information theta q = Inr ?v"
    using Cons.prems by (auto simp: calculate_information_spec split: if_splits)
  show ?case
  proof (cases "?v > mx")
    case True
    then have run: "max_information_loop theta qs (Some q) ?v = Inr res"
      using Cons.prems ci by simp
    note ih = Cons.IH [OF run]
    have "\<exists>i. first_maximum theta (q # qs) mx i \<and> res = Some ((q # qs) ! i)"
    proof (cases "\<forall>q'\<in>set qs. spec_information q' theta \<le> ?v")
      case all: True
      then have "res = Some ((q # qs) ! 0)" using ih by simp
      moreover have "first_maximum theta (q # qs) mx 0"
        using True all by (rule first_maximum_head)
      ultimately show ?thesis by blast
    next
      case False
      with ih obtain i where i: "first_maximum theta qs ?v i" "res = Some (qs ! i)"
        by (simp only: if_False) blast
      have "first_maximum theta (q # qs) mx (Suc i)"
        using i(1) True by (intro first_maximum_tail [where m = ?v]) simp_all
      then show ?thesis using i(2) by auto
    qed
    then show ?thesis using True by auto
  next
    case le: False
    then have run: "max_information_loop theta qs best mx = Inr res"
      using Cons.prems ci by simp
    note ih = Cons.IH [OF run]
    show ?thesis
    proof (cases "\<forall>q'\<in>set qs. spec_information q' theta \<le> mx")
      case True
      then show ?thesis using ih le by simp
    next
      case False
      with ih obtain i where i: "first_maximum theta qs mx i" "res = Some (qs ! i)"
        by (simp only: if_False) blast
      have "first_maximum theta (q # qs) mx (Suc i)"
        using i(1) le by (intro first_maximum_tail [where m = mx]) simp_all
      then have "\<exists>i. first_maximum theta (q # qs) mx i \<and> res = Some ((q # qs) ! i)"
        using i(2) by auto
      then show ?thesis using False by auto
    qed
  qed
qed

lemma select_next_question_fallback:
  assumes "unanswered available_questions answered_questions \<noteq> []"
    "question_selection_strategy self \<noteq> ''maximum_information''"
    "question_selection_strategy self \<noteq> ''closest_difficulty''"
  shows "select_next_question self theta available_questions answered_questions = Inl NameError"
  using assms by (auto simp: select_next_question_def unanswered_def)

lemma select_next_question_maximum:
  assumes "question_selection_strategy self = ''maximum_information''"
    "select_next_question self theta available_questions answered_questions = Inr res"
  shows "if \<forall>q\<in>set (unanswered available_questions answered_questions).
               spec_information q theta \<le> 0
         then res = None
         else (\<exists>i. first_maximum theta (unanswered available_questions answered_questions) 0 i
                 \<and> res = Some (unanswered available_questions answered_questions ! i))"
proof (cases "unanswered available_questions answered_questions = []")
  case True
  then show ?thesis using assms by (auto simp: select_next_question_def split: if_splits)
next
  case False
  then have "available_questions \<noteq> []" by (auto simp: unanswered_def)
  then have "max_information_loop theta (unanswered available_questions answered_questions) None 0
      = Inr res"
    using assms False by (simp add: select_next_question_def)
  then show ?thesis by (rule max_information_loop_result)
qed

text \<open>
  C4. With the \<^verbatim>\<open>maximum_information\<close> strategy the selection should return none only
  when no item is unanswered. The loop starts from \<^verbatim>\<open>max_information = 0\<close> and replaces
  the best item only on a strictly greater information, so an unanswered item whose
  information is \<open>0\<close> (here \<open>a = 0\<close>) is never taken: the pool holds one unanswered item
  and the selection returns none.
\<close>

theorem select_next_question_zero_information:
  "unanswered [q_flat] [] = [q_flat] \<and> select_next_question init 0 [q_flat] [] = Inr None"
  by (simp add: select_next_question_def unanswered_def init_def calculate_information_def
      dict_get_def q_flat_def)

text \<open>
  C9. With a strategy other than the two named ones and an unanswered item, the selection
  reaches \<^verbatim>\<open>random.choice\<close>, whose module was never imported: it raises
  \<^verbatim>\<open>NameError\<close> and returns no item.
\<close>

theorem select_next_question_random:
  "unanswered [q_std] [] = [q_std]
   \<and> select_next_question (init\<lparr>question_selection_strategy := ''random''\<rparr>) 0 [q_std] []
       = Inl NameError"
  by (simp add: select_next_question_def unanswered_def init_def)

section \<open>Responses beyond the items\<close>

lemma zip_take_length: "zip (take (length qs) rs) qs = zip rs qs"
  by (induction rs qs rule: list_induct2') simp_all

lemma derivatives_loop_zip_cong:
  "zip rs qs = zip rs' qs \<Longrightarrow>
   derivatives_loop theta qs 0 rs (0, 0) = derivatives_loop theta qs 0 rs' (0, 0)"
  by (simp add: derivatives_loop_start pq_defined_def spec_L1_def spec_L2_def)

lemma newton_loop_zip_cong:
  "zip rs qs = zip rs' qs \<Longrightarrow> newton_loop n rs qs theta = newton_loop n rs' qs theta"
proof (induction n arbitrary: theta)
  case 0
  show ?case by simp
next
  case (Suc n)
  have "derivatives_loop theta qs 0 rs (0, 0) = derivatives_loop theta qs 0 rs' (0, 0)"
    using Suc.prems by (rule derivatives_loop_zip_cong)
  then show ?case
    using Suc.IH [OF Suc.prems] by (simp add: Let_def split: sum.splits prod.splits)
qed

lemma newton_loop_no_items: "newton_loop n rs [] theta = Inr theta"
  by (cases n) (simp_all add: derivatives_loop_start pq_defined_def spec_L2_def tolerance_def)

lemma estimate_ability_extra_response:
  "estimate_ability [r_true, r_false, r_true] [q_std, q_std] = Inr 0"
  by (simp add: estimate_ability_def max_iterations_def numeral_eq_Suc item_derivatives_def
      dict_get_def response_value_def tolerance_def q_std_def r_true_def r_false_def)

text \<open>
  C7, as the claim states it: with more responses than items the estimator should fail
  with an error. Three responses against two items return the estimate \<open>0\<close>.
\<close>

theorem estimate_ability_mismatch_counterexample:
  "length [q_std, q_std] < length [r_true, r_false, r_true]
   \<and> estimate_ability [r_true, r_false, r_true] [q_std, q_std] = Inr 0"
  by (simp add: estimate_ability_extra_response)

text \<open>
  C7, amended: with more responses than items the estimator raises no length error; the
  responses beyond the last item are skipped, and the result is the one computed from the
  first \<^verbatim>\<open>len(questions)\<close> responses.
\<close>

theorem estimate_ability_skips_extra_responses:
  assumes "length qs < length rs"
  shows "estimate_ability rs qs = estimate_ability (take (length qs) rs) qs"
proof (cases "qs = []")
  case True
  then show ?thesis by (simp add: estimate_ability_def newton_loop_no_items)
next
  case False
  then have "take (length qs) rs \<noteq> []" "rs \<noteq> []" using assms by auto
  moreover have "newton_loop max_iterations (take (length qs) rs) qs 0
      = newton_loop max_iterations rs qs 0"
    by (rule newton_loop_zip_cong) (rule zip_take_length)
  ultimately show ?thesis
    by (simp add: estimate_ability_def)
qed

theorem estimate_ability_skips_extra_responses_witness:
  "length [q_std, q_std] < length [r_true, r_false, r_true]
   \<and> estimate_ability [r_true, r_false, r_true] [q_std, q_std]
       = estimate_ability [r_true, r_false] [q_std, q_std]"
  using estimate_ability_skips_extra_responses [of "[q_std, q_std]" "[r_true, r_false, r_true]"]
  by simp

section \<open>Division by \<open>pq\<close>\<close>

text \<open>
  C8, as the claim states it: the probability should be clamped away from 0 and 1, so that
  no item with \<open>0 \<le> c \<le> d \<le> 1\<close> and \<open>a \<ge> 0\<close> divides by zero. There is no clamp: for
  \<open>c = d = 0\<close> the probability is exactly \<open>0\<close>, and both functions divide by \<open>pq = 0\<close>.
\<close>

theorem no_clamp_counterexample:
  "0 \<le> a_of q_degenerate \<and> 0 \<le> c_of q_degenerate \<and> c_of q_degenerate \<le> d_of q_degenerate
   \<and> d_of q_degenerate \<le> 1
   \<and> calculate_information 0 q_degenerate = Inl ZeroDivisionError
   \<and> item_derivatives 0 r_true q_degenerate = Inl ZeroDivisionError"
  by (simp add: calculate_information_def item_derivatives_def a_of_def c_of_def d_of_def
      dict_get_def q_degenerate_def)

text \<open>
  C8, amended: the probability is used as computed, without a clamp. On an item with
  \<open>c = d = 0\<close> or \<open>c = d = 1\<close> it is exactly \<open>0\<close> or \<open>1\<close>, for every \<open>a\<close>, \<open>b\<close> and every \<open>\<theta>\<close> at
  which \<^verbatim>\<open>math.exp\<close> is computed, and both functions raise \<^verbatim>\<open>ZeroDivisionError\<close>. On an
  item whose own asymptotes keep the curve away from \<open>0\<close> and \<open>1\<close>,
  \<open>10\<^sup>-\<^sup>9 \<le> c \<le> d \<le> 1 - 10\<^sup>-\<^sup>9\<close>, the divisor \<open>pq\<close> is positive and neither function divides
  by zero. The items in between (such as \<open>c = 0, d = 1\<close>) are left out: there the probability
  comes arbitrarily close to \<open>0\<close> or \<open>1\<close>, and in double arithmetic it rounds to it when
  \<open>|a (\<theta> - b)|\<close> is large.
\<close>

theorem division_by_pq:
  "(c_of q = d_of q \<and> (c_of q = 0 \<or> c_of q = 1) \<and> exp_computed q theta \<longrightarrow>
      calculate_information theta q = Inl ZeroDivisionError
      \<and> item_derivatives theta r q = Inl ZeroDivisionError)
   \<and> (1 / 10 ^ 9 \<le> c_of q \<and> c_of q \<le> d_of q \<and> d_of q \<le> 1 - 1 / 10 ^ 9 \<longrightarrow>
      0 < spec_pq q theta
      \<and> calculate_information theta q \<noteq> Inl ZeroDivisionError
      \<and> item_derivatives theta r q \<noteq> Inl ZeroDivisionError)"
proof -
  have 1: "c_of q = d_of q \<and> (c_of q = 0 \<or> c_of q = 1) \<longrightarrow>
      calculate_information theta q = Inl ZeroDivisionError
      \<and> item_derivatives theta r q = Inl ZeroDivisionError"
    by (auto simp: calculate_information_spec item_derivatives_spec spec_pq_def spec_P_eq)
  have 2: "1 / 10 ^ 9 \<le> c_of q \<and> c_of q \<le> d_of q \<and> d_of q \<le> 1 - 1 / 10 ^ 9 \<longrightarrow>
      0 < spec_pq q theta
      \<and> calculate_information theta q \<noteq> Inl ZeroDivisionError
      \<and> item_derivatives theta r q \<noteq> Inl ZeroDivisionError"
  proof
    assume h: "1 / 10 ^ 9 \<le> c_of q \<and> c_of q \<le> d_of q \<and> d_of q \<le> 1 - 1 / 10 ^ 9"
    have c: "0 < c_of q" "d_of q < 1"
      using h by (auto intro: less_le_trans [of 0 "1 / 10 ^ 9"])
    have "0 < spec_P q theta \<and> spec_P q theta < 1"
    proof (cases "c_of q = d_of q")
      case True
      then show ?thesis using c by (simp add: spec_P_eq)
    next
      case False
      then have "c_of q < d_of q" using h by simp
      then show ?thesis using spec_P_between [of q theta] c by simp
    qed
    then have "0 < spec_pq q theta" by (simp add: spec_pq_def)
    then show "0 < spec_pq q theta
      \<and> calculate_information theta q \<noteq> Inl ZeroDivisionError
      \<and> item_derivatives theta r q \<noteq> Inl ZeroDivisionError"
      by (simp add: calculate_information_spec item_derivatives_spec)
  qed
  show ?thesis using 1 2 by blast
qed

theorem division_by_pq_witness:
  "c_of q_degenerate = d_of q_degenerate \<and> c_of q_degenerate = 0 \<and> exp_computed q_degenerate 0
   \<and> calculate_information 0 q_degenerate = Inl ZeroDivisionError
   \<and> 1 / 10 ^ 9 \<le> c_of q_mid \<and> c_of q_mid \<le> d_of q_mid \<and> d_of q_mid \<le> 1 - 1 / 10 ^ 9
   \<and> 0 < spec_pq q_mid 0
   \<and> calculate_information 0 q_mid \<noteq> Inl ZeroDivisionError
   \<and> item_derivatives 0 r_true q_mid \<noteq> Inl ZeroDivisionError"
proof -
  have d: "c_of q_degenerate = 0" "d_of q_degenerate = 0" "exp_computed q_degenerate 0"
    by (simp_all add: exp_computed_def a_of_def b_of_def c_of_def d_of_def dict_get_def
        q_degenerate_def)
  have m: "c_of q_mid = 1 / 4" "d_of q_mid = 3 / 4"
    by (simp_all add: c_of_def d_of_def dict_get_def q_mid_def)
  have a: "calculate_information 0 q_degenerate = Inl ZeroDivisionError"
    using division_by_pq [of q_degenerate 0 r_true] d by simp
  have b: "0 < spec_pq q_mid 0 \<and> calculate_information 0 q_mid \<noteq> Inl ZeroDivisionError
      \<and> item_derivatives 0 r_true q_mid \<noteq> Inl ZeroDivisionError"
    using division_by_pq [of q_mid 0 r_true] by (simp add: m)
  show ?thesis using a b d by (simp add: m)
qed

section \<open>Missing psychometric fields\<close>









section \<open>Update of difficulty and discrimination\<close>

lemma top_third_ceiling: "(n + 2) div 3 = nat \<lceil>real n / 3\<rceil>"
  by linarith

lemma bottom_third_floor: "n div 3 = nat \<lfloor>real n / 3\<rfloor>"
  by linarith

lemma sorted_responses_props:
  "mset (sorted_responses rs) = mset rs \<and> length (sorted_responses rs) = length rs
   \<and> sorted_wrt (\<lambda>x y. ability_key x \<ge> ability_key y) (sorted_responses rs)"
proof -
  have "sorted (map (\<lambda>x. - ability_key x) (sorted_responses rs))"
    by (simp add: sorted_responses_def ability_key_def)
  then have "sorted_wrt (\<lambda>x y. ability_key x \<ge> ability_key y) (sorted_responses rs)"
    by (simp add: sorted_wrt_map)
  then show ?thesis by (simp add: sorted_responses_def)
qed

lemma update_psychometrics_three:
  "update_psychometrics psy0 [resp True 1, resp False 0, resp True 2] =
     psy0\<lparr> p_difficulty := 2 / 3, p_discrimination := 1 \<rparr>"
  by (simp add: update_psychometrics_def Let_def sorted_responses_def count_correct_def
      response_correct_def dict_get_def resp_def slice_last_def psy0_def)

text \<open>
  C5. \<^verbatim>\<open>update_psychometrics\<close> changes nothing for an empty batch. For \<open>n > 0\<close> responses
  it sets the difficulty to the number of correct responses over \<open>n\<close>, and, with the
  responses ordered by descending recorded ability, the discrimination to the share of
  correct responses among the first \<open>\<lceil>n / 3\<rceil>\<close> minus the share among the last \<open>\<lfloor>n / 3\<rfloor>\<close>,
  when both sizes are positive; otherwise the discrimination stays. The other two fields
  stay.
\<close>

theorem update_psychometrics_spec:
  "update_psychometrics self [] = self
   \<and> (rs \<noteq> [] \<longrightarrow>
        p_difficulty (update_psychometrics self rs) = real (count_correct rs) / real (length rs)
      \<and> p_discrimination (update_psychometrics self rs) =
          (if nat \<lceil>real (length rs) / 3\<rceil> > 0 \<and> nat \<lfloor>real (length rs) / 3\<rfloor> > 0
           then real (count_correct (take (nat \<lceil>real (length rs) / 3\<rceil>) (sorted_responses rs)))
                  / real (nat \<lceil>real (length rs) / 3\<rceil>)
                - real (count_correct (drop (length rs - nat \<lfloor>real (length rs) / 3\<rfloor>)
                                         (sorted_responses rs)))
                  / real (nat \<lfloor>real (length rs) / 3\<rfloor>)
           else p_discrimination self)
      \<and> p_guessing (update_psychometrics self rs) = p_guessing self
      \<and> p_upper_asymptote (update_psychometrics self rs) = p_upper_asymptote self)
   \<and> mset (sorted_responses rs) = mset rs
   \<and> sorted_wrt (\<lambda>x y. ability_key x \<ge> ability_key y) (sorted_responses rs)"
proof -
  have len: "length (sorted_responses rs) = length rs"
    using sorted_responses_props by blast
  show ?thesis
    unfolding top_third_ceiling [symmetric] bottom_third_floor [symmetric]
    using sorted_responses_props [of rs]
    by (simp add: update_psychometrics_def Let_def len slice_last_def)
qed

theorem update_psychometrics_spec_witness:
  "[resp True 1, resp False 0, resp True 2] \<noteq> []
   \<and> update_psychometrics psy0 [resp True 1, resp False 0, resp True 2] =
       psy0\<lparr> p_difficulty := 2 / 3, p_discrimination := 1 \<rparr>
   \<and> p_difficulty (update_psychometrics psy0 [resp True 1, resp False 0, resp True 2]) =
       real (count_correct [resp True 1, resp False 0, resp True 2])
         / real (length [resp True 1, resp False 0, resp True 2])
   \<and> p_difficulty (update_psychometrics psy0 [resp True 1, resp False 0, resp True 2]) = 2 / 3"
  using update_psychometrics_spec [of psy0 "[resp True 1, resp False 0, resp True 2]"]
    update_psychometrics_three
  by simp

section \<open>Changing an incorrect response into a correct one\<close>

lemma mark_correct_r_false: "mark_correct r_false = r_true"
  by (simp add: mark_correct_def r_true_def r_false_def)

lemma response_value_incorrect: "\<not> response_correct r \<Longrightarrow> response_value r = 0"
  by (cases "is_correct r") (simp_all add: response_correct_def response_value_def dict_get_def)

lemma response_value_mark_correct: "response_value (mark_correct r) = 1"
  by (simp add: response_value_def mark_correct_def)

lemma spec_L2_items:
  "spec_L2 rs qs theta =
     (\<Sum>q \<leftarrow> take (length rs) qs. - (a_of q)\<^sup>2 * (d_of q - c_of q)\<^sup>2 / (spec_pq q theta)\<^sup>2)"
proof -
  have "map (\<lambda>(r, q). - (a_of q)\<^sup>2 * (d_of q - c_of q)\<^sup>2 / (spec_pq q theta)\<^sup>2) (zip rs qs)
      = map (\<lambda>q. - (a_of q)\<^sup>2 * (d_of q - c_of q)\<^sup>2 / (spec_pq q theta)\<^sup>2) (map snd (zip rs qs))"
    by (simp add: case_prod_beta)
  also have "map snd (zip rs qs) = take (min (length rs) (length qs)) qs"
    by (rule map_snd_zip_take)
  finally show ?thesis by (simp add: spec_L2_def min_def)
qed

lemma pq_defined_items:
  "pq_defined rs qs theta = list_all (\<lambda>q. spec_pq q theta \<noteq> 0) (take (length rs) qs)"
proof -
  have "list_all (\<lambda>(r, q). spec_pq q theta \<noteq> 0) (zip rs qs)
      = list_all (\<lambda>q. spec_pq q theta \<noteq> 0) (map snd (zip rs qs))"
    by (simp add: list_all_iff case_prod_beta)
  also have "map snd (zip rs qs) = take (min (length rs) (length qs)) qs"
    by (rule map_snd_zip_take)
  finally show ?thesis by (simp add: pq_defined_def min_def)
qed

lemma spec_L2_nonpos: "spec_L2 rs qs theta \<le> 0"
  unfolding spec_L2_items by (rule sum_list_nonpos) auto

lemma spec_L1_flip:
  assumes "i < length rs" "response_value (rs ! i) = 0" "\<forall>q\<in>set qs. valid_item q"
  shows "spec_L1 rs qs theta \<le> spec_L1 (rs[i := mark_correct (rs ! i)]) qs theta"
  using assms
proof (induction rs arbitrary: i qs)
  case Nil
  then show ?case by simp
next
  case (Cons r rs)
  show ?case
  proof (cases qs)
    case Nil
    then show ?thesis by (simp add: spec_L1_def)
  next
    case (Cons q qs')
    have v: "valid_item q" "\<forall>q\<in>set qs'. valid_item q"
      using Cons.prems(3) Cons by simp_all
    show ?thesis
    proof (cases i)
      case 0
      have r: "response_value r = 0" using Cons.prems(2) 0 by simp
      have "0 \<le> spec_pq q theta"
        using v(1) by (intro spec_pq_nonneg) (simp_all add: valid_item_def)
      then have k: "0 \<le> a_of q * (d_of q - c_of q) / spec_pq q theta"
        using v(1) by (simp add: valid_item_def)
      have "a_of q * (1 - spec_P q theta) * (d_of q - c_of q) / spec_pq q theta
          - a_of q * (0 - spec_P q theta) * (d_of q - c_of q) / spec_pq q theta
          = a_of q * (d_of q - c_of q) / spec_pq q theta"
        by (simp add: algebra_simps diff_divide_distrib [symmetric])
      then have "a_of q * (0 - spec_P q theta) * (d_of q - c_of q) / spec_pq q theta
          \<le> a_of q * (1 - spec_P q theta) * (d_of q - c_of q) / spec_pq q theta"
        using k by linarith
      then show ?thesis
        using 0 Cons r by (simp add: spec_L1_def response_value_mark_correct)
    next
      case (Suc j)
      have "spec_L1 rs qs' theta \<le> spec_L1 (rs[j := mark_correct (rs ! j)]) qs' theta"
        using Cons.prems Suc v(2) by (intro Cons.IH) simp_all
      then show ?thesis
        using Suc Cons by (simp add: spec_L1_def)
    qed
  qed
qed

lemma newton_loop_once:
  "newton_loop (Suc 0) rs qs theta =
     (if \<not> pq_defined rs qs theta then Inl ZeroDivisionError
      else if spec_continues rs qs theta then Inr (spec_update rs qs theta)
      else Inr theta)"
  by (simp add: newton_loop_step del: newton_loop.simps(2))

lemma step_choice_mono:
  fixes u u' theta tol :: real
  assumes "u \<le> u'" "0 < tol"
  shows "(if \<bar>u - theta\<bar> < tol then theta else u) \<le> (if \<bar>u' - theta\<bar> < tol then theta else u')"
  using assms by (simp add: abs_less_iff not_less)

lemma newton_loop_once_defined:
  "pq_defined rs qs theta \<Longrightarrow>
   newton_loop (Suc 0) rs qs theta =
     Inr (if \<bar>spec_L2 rs qs theta\<bar> < tolerance then theta
          else if \<bar>spec_update rs qs theta - theta\<bar> < tolerance then theta
          else spec_update rs qs theta)"
  by (simp add: newton_loop_once spec_continues_def del: newton_loop.simps)

lemma newton_loop_once_first_incorrect:
  "newton_loop (Suc 0) [r_false, r_true, r_true] [q_low, q_low, q_low] 0 = Inr (3125 / 146)"
  using q_low_continues_0(2)
  by (simp add: newton_loop_once q_low_pq_defined q_low_continues_0(4) del: newton_loop.simps)

text \<open>
  C6, as the claim states it: changing one response from incorrect to correct should never
  decrease the returned \<open>\<theta>\<close>. On three copies of \<open>q_low\<close> (\<open>a = 0.0073, b = 0, c = 0, d = 0.5\<close>)
  the answers incorrect, correct, correct give an estimate above \<open>5625 / 146\<close>, and the
  answers correct, correct, correct give \<open>5625 / 146\<close>.
\<close>

theorem estimate_ability_monotonicity_counterexample:
  "\<not> response_correct r_false
   \<and> estimate_ability ([r_false, r_true, r_true][0 := mark_correct r_false])
         [q_low, q_low, q_low] = Inr (5625 / 146)
   \<and> \<not> isl (estimate_ability [r_false, r_true, r_true] [q_low, q_low, q_low])
   \<and> 5625 / 146 < projr (estimate_ability [r_false, r_true, r_true] [q_low, q_low, q_low])"
proof -
  have "\<not> response_correct r_false"
    by (simp add: response_correct_def r_false_def dict_get_def)
  moreover have "[r_false, r_true, r_true][0 := mark_correct r_false] = [r_true, r_true, r_true]"
    by (simp add: mark_correct_r_false)
  ultimately show ?thesis
    using q_low_update_near
    by (simp only: estimate_one_incorrect estimate_all_correct sum.sel sum.disc simp_thms)
qed

text \<open>
  C6, amended: for items with \<open>a \<ge> 0\<close> and \<open>0 \<le> c \<le> d \<le> 1\<close>, changing one response from
  incorrect to correct leaves \<open>L''\<close> as it is and never decreases \<open>L'\<close> at any \<open>\<theta>\<close>, so it
  never decreases the update \<open>\<theta> - L' / L''\<close> taken from the same \<open>\<theta>\<close>, nor the \<open>\<theta>\<close> that one
  iteration of the loop returns. Nothing is said about the run of up to 50 iterations.
\<close>

theorem one_iteration_monotone:
  assumes "i < length rs" "\<not> response_correct (rs ! i)" "\<forall>q\<in>set qs. valid_item q"
  shows "(\<forall>f s. derivatives_loop theta qs 0 rs (0, 0) = Inr (f, s) \<longrightarrow>
            (\<exists>f'. derivatives_loop theta qs 0 (rs[i := mark_correct (rs ! i)]) (0, 0) = Inr (f', s)
                 \<and> f \<le> f' \<and> theta - f / s \<le> theta - f' / s))
       \<and> (\<forall>t. newton_loop (Suc 0) rs qs theta = Inr t \<longrightarrow>
            (\<exists>t'. newton_loop (Suc 0) (rs[i := mark_correct (rs ! i)]) qs theta = Inr t'
                 \<and> t \<le> t'))"
proof -
  let ?rs = "rs[i := mark_correct (rs ! i)]"
  have d: "pq_defined ?rs qs theta = pq_defined rs qs theta"
    by (simp add: pq_defined_items)
  have s: "spec_L2 ?rs qs theta = spec_L2 rs qs theta"
    by (simp add: spec_L2_items)
  have f: "spec_L1 rs qs theta \<le> spec_L1 ?rs qs theta"
    using assms by (intro spec_L1_flip) (simp_all add: response_value_incorrect)
  have n: "spec_L2 rs qs theta \<le> 0" by (rule spec_L2_nonpos)
  have q: "spec_L1 ?rs qs theta / spec_L2 rs qs theta \<le> spec_L1 rs qs theta / spec_L2 rs qs theta"
    using f n by (rule divide_right_mono_neg)
  then have u: "spec_update rs qs theta \<le> spec_update ?rs qs theta"
    by (simp add: spec_update_def s)
  have 1: "\<forall>f s. derivatives_loop theta qs 0 rs (0, 0) = Inr (f, s) \<longrightarrow>
            (\<exists>f'. derivatives_loop theta qs 0 ?rs (0, 0) = Inr (f', s)
                 \<and> f \<le> f' \<and> theta - f / s \<le> theta - f' / s)"
    using f q by (auto simp: derivatives_loop_start d s split: if_splits)
  have 2: "\<forall>t. newton_loop (Suc 0) rs qs theta = Inr t \<longrightarrow>
            (\<exists>t'. newton_loop (Suc 0) ?rs qs theta = Inr t' \<and> t \<le> t')"
  proof (cases "pq_defined rs qs theta")
    case False
    then show ?thesis by (simp add: newton_loop_once del: newton_loop.simps)
  next
    case True
    have "0 < tolerance" by (simp add: tolerance_def)
    then show ?thesis
      using True step_choice_mono [OF u, of tolerance theta]
      by (simp add: newton_loop_once_defined d s del: newton_loop.simps)
  qed
  show ?thesis using 1 2 by blast
qed

theorem one_iteration_monotone_witness:
  "0 < length [r_false, r_true, r_true]
   \<and> \<not> response_correct ([r_false, r_true, r_true] ! 0)
   \<and> valid_item q_low
   \<and> newton_loop (Suc 0) [r_false, r_true, r_true] [q_low, q_low, q_low] 0 = Inr (3125 / 146)
   \<and> (\<exists>t'. newton_loop (Suc 0)
               ([r_false, r_true, r_true][0 := mark_correct ([r_false, r_true, r_true] ! 0)])
               [q_low, q_low, q_low] 0 = Inr t'
           \<and> 3125 / 146 \<le> t')"
proof -
  have 1: "0 < length [r_false, r_true, r_true]" by simp
  have 2: "\<not> response_correct ([r_false, r_true, r_true] ! 0)"
    by (simp add: response_correct_def r_false_def dict_get_def)
  have v: "valid_item q_low"
    by (simp add: valid_item_def q_low_parameters)
  then have 3: "\<forall>q\<in>set [q_low, q_low, q_low]. valid_item q"
    by simp
  show ?thesis
    using one_iteration_monotone [OF 1 2 3, of 0] 1 2 v newton_loop_once_first_incorrect
    by blast
qed

end
